theory Spec2Isabelle
  imports Main "HOL-Library.Extended_Nat"
begin

section \<open>Data model of the settings store (voidSettingsService)\<close>

text \<open>
  The second module of \<^verbatim>\<open>voidConfigService.ts\<close> (the \<^verbatim>\<open>VoidSettingsService\<close>) is
  embedded here. Its types come from \<^verbatim>\<open>voidSettingsTypes.js\<close>, which is imported by
  the source but is not part of it; the shapes below are the ones the source
  constructs and destructures.

  A provider name and a feature-flag name are strings. The feature names are the
  three keys of the object literal in \<^verbatim>\<open>defaultState\<close>:
  \<^verbatim>\<open>'Ctrl+L'\<close>, \<^verbatim>\<open>'Ctrl+K'\<close> and \<^verbatim>\<open>'Autocomplete'\<close>.
\<close>

type_synonym ProviderName = string

type_synonym FeatureFlagName = string

datatype FeatureName = CtrlL | CtrlK | Autocomplete

text \<open>\<^verbatim>\<open>VoidModelInfo\<close>: the fields that \<^verbatim>\<open>addModel\<close> writes and that
  \<^verbatim>\<open>_computeModelOptions\<close> and \<^verbatim>\<open>setDefaultModels\<close> read.\<close>

record VoidModelInfo =
  modelName :: string
  isDefault :: bool
  isHidden :: bool

text \<open>\<^verbatim>\<open>ModelSelection = {providerName, modelName}\<close>. Field names of different
  records share one name space, so the second field is called \<open>selModelName\<close>.\<close>

record ModelSelection =
  providerName :: ProviderName
  selModelName :: string

text \<open>\<^verbatim>\<open>ModelOption = {text, value}\<close>; the fields are called \<open>optText\<close> and
  \<open>optValue\<close>.\<close>

record ModelOption =
  optText :: string
  optValue :: ModelSelection

text \<open>
  The settings of one provider: the \<^verbatim>\<open>_enabled\<close> flag, the \<^verbatim>\<open>models\<close> list and the
  remaining, string-valued settings (API key, endpoint, ...), kept by name.
\<close>

record ProviderSettings =
  p_enabled :: bool
  models :: "VoidModelInfo list"
  custom :: "string \<Rightarrow> string option"

text \<open>
  The type of \<^verbatim>\<open>setSettingOfProvider\<close> ties the type of \<^verbatim>\<open>newVal\<close> to
  \<^verbatim>\<open>settingName\<close>. A \<open>Setting\<close> is such a well-typed pair; \<open>settingName\<close> is its
  first component.
\<close>

datatype SettingName = N_enabled | N_models | N_custom string

datatype Setting =
    Enabled bool
  | Models "VoidModelInfo list"
  | Custom string string

fun settingName :: "Setting \<Rightarrow> SettingName" where
  "settingName (Enabled b) = N_enabled"
| "settingName (Models ms) = N_models"
| "settingName (Custom k v) = N_custom k"

text \<open>Reading \<^verbatim>\<open>settings[settingName]\<close>; \<open>None\<close> is \<^verbatim>\<open>undefined\<close>.\<close>

fun readSetting :: "ProviderSettings \<Rightarrow> SettingName \<Rightarrow> Setting option" where
  "readSetting ps N_enabled = Some (Enabled (p_enabled ps))"
| "readSetting ps N_models = Some (Models (models ps))"
| "readSetting ps (N_custom k) = map_option (Custom k) (custom ps k)"

text \<open>The object spread \<^verbatim>\<open>{ ...settings, [settingName]: newVal }\<close>.\<close>

fun writeSetting :: "ProviderSettings \<Rightarrow> Setting \<Rightarrow> ProviderSettings" where
  "writeSetting ps (Enabled b) = ps\<lparr>p_enabled := b\<rparr>"
| "writeSetting ps (Models ms) = ps\<lparr>models := ms\<rparr>"
| "writeSetting ps (Custom k v) = ps\<lparr>custom := (custom ps)(k \<mapsto> v)\<rparr>"

type_synonym SettingsOfProvider = "ProviderName \<Rightarrow> ProviderSettings"

type_synonym ModelSelectionOfFeature = "FeatureName \<Rightarrow> ModelSelection option"

type_synonym FeatureFlagSettings = "FeatureFlagName \<Rightarrow> bool"

text \<open>\<^verbatim>\<open>VoidSettingsState\<close>; \<open>modelOptions\<close> is the field \<^verbatim>\<open>_modelOptions\<close>.\<close>

record VoidSettingsState =
  settingsOfProvider :: SettingsOfProvider
  modelSelectionOfFeature :: ModelSelectionOfFeature
  featureFlagSettings :: FeatureFlagSettings
  modelOptions :: "ModelOption list"

datatype EventProp =
    EvSettingsOfProvider
  | EvModelSelectionOfFeature
  | EvFeatureFlagSettings
  | EvAll

datatype Error = EncryptRejected | DecryptRejected | JsonSyntaxError

text \<open>
  What the service is given from outside: the constants and the helper of
  \<^verbatim>\<open>voidSettingsTypes.js\<close> that the source imports (\<^verbatim>\<open>providerNames\<close>,
  \<^verbatim>\<open>featureNames\<close>, the two default tables, \<^verbatim>\<open>modelInfoOfDefaultNames\<close> applied to a
  name list and the existing models), the injected encryption service and the JSON
  codec. \<open>None\<close> from \<open>encrypt\<close> or \<open>decrypt\<close> is a rejected promise, \<open>None\<close> from
  \<open>JSON_parse\<close> a thrown syntax error.
\<close>

record Env =
  providerNames :: "ProviderName list"
  featureNames :: "FeatureName list"
  defaultSettingsOfProvider :: SettingsOfProvider
  defaultFeatureFlagSettings :: FeatureFlagSettings
  modelInfoOfDefaultNames :: "string list \<Rightarrow> VoidModelInfo list \<Rightarrow> VoidModelInfo list"
  JSON_stringify :: "VoidSettingsState \<Rightarrow> string"
  JSON_parse :: "string \<Rightarrow> VoidSettingsState option"
  encrypt :: "string \<Rightarrow> string option"
  decrypt :: "string \<Rightarrow> string option"

text \<open>
  The service object and what it acts on: its \<^verbatim>\<open>state\<close> field, the application
  scope of the storage service (key to stored string), and the events fired on
  \<^verbatim>\<open>_onDidChangeState\<close>, oldest first.

  An asynchronous method is a function from the world before the call to the
  outcome of its promise (\<open>Inl\<close> for a rejection) and the world after it. The part
  of a method before its first \<^verbatim>\<open>await\<close> runs without interruption in the source;
  the persist step and the event follow it here at once, so calls do not interleave.
\<close>

record World =
  state :: VoidSettingsState
  storage :: "string \<Rightarrow> string option"
  fired :: "EventProp list"

definition STORAGE_KEY :: string where
  "STORAGE_KEY = ''void.voidSettingsStorage''"

section \<open>Array helpers\<close>

text \<open>\<^verbatim>\<open>Array.prototype.findIndex\<close>: the first index whose element satisfies the
  predicate, or \<open>-1\<close>.\<close>

fun findIndexFrom :: "nat \<Rightarrow> ('a \<Rightarrow> bool) \<Rightarrow> 'a list \<Rightarrow> int" where
  "findIndexFrom i P [] = -1"
| "findIndexFrom i P (x # xs) = (if P x then int i else findIndexFrom (Suc i) P xs)"

definition findIndex :: "('a \<Rightarrow> bool) \<Rightarrow> 'a list \<Rightarrow> int" where
  "findIndex P xs = findIndexFrom 0 P xs"

text \<open>\<^verbatim>\<open>Array.prototype.slice(start, end)\<close> for a start that is not negative; the end
  may be \<^verbatim>\<open>Infinity\<close>.\<close>

definition slice :: "'a list \<Rightarrow> nat \<Rightarrow> enat \<Rightarrow> 'a list" where
  "slice xs start fin = (case fin of enat e \<Rightarrow> take (e - start) (drop start xs) | \<infinity> \<Rightarrow> drop start xs)"

section \<open>The derived option list\<close>

text \<open>The option pushed for one model: \<^verbatim>\<open>{ text: `${modelName} (${providerName})`,
  value: { providerName, modelName } }\<close>.\<close>

definition mkOption :: "ProviderName \<Rightarrow> string \<Rightarrow> ModelOption" where
  "mkOption p m = \<lparr>optText = m @ '' ('' @ p @ '')'', optValue = \<lparr>providerName = p, selModelName = m\<rparr>\<rparr>"

text \<open>The inner loop of \<^verbatim>\<open>_computeModelOptions\<close> over the models of one provider;
  \<open>acc\<close> is the array \<^verbatim>\<open>modelOptions\<close> that the loop pushes to.\<close>

fun pushModels :: "ProviderName \<Rightarrow> VoidModelInfo list \<Rightarrow> ModelOption list \<Rightarrow> ModelOption list" where
  "pushModels p [] acc = acc"
| "pushModels p (m # ms) acc =
     (if isHidden m then pushModels p ms acc
      else pushModels p ms (acc @ [mkOption p (modelName m)]))"

text \<open>The outer loop over \<^verbatim>\<open>providerNames\<close>.\<close>

fun pushProviders :: "SettingsOfProvider \<Rightarrow> ProviderName list \<Rightarrow> ModelOption list \<Rightarrow> ModelOption list" where
  "pushProviders sop [] acc = acc"
| "pushProviders sop (p # ps) acc =
     (let providerConfig = sop p
      in if \<not> p_enabled providerConfig then pushProviders sop ps acc
         else pushProviders sop ps (pushModels p (models providerConfig) acc))"

definition computeModelOptions :: "ProviderName list \<Rightarrow> SettingsOfProvider \<Rightarrow> ModelOption list" where
  "computeModelOptions pns sop = pushProviders sop pns []"

text \<open>
  The option list in the words of the specification: the entries of all enabled
  providers' non-hidden models, flattened, in provider order then model order.
\<close>

definition flattenedOptions :: "ProviderName list \<Rightarrow> SettingsOfProvider \<Rightarrow> ModelOption list" where
  "flattenedOptions pns sop =
     concat (map (\<lambda>p. map (\<lambda>m. mkOption p (modelName m)) (filter (\<lambda>m. \<not> isHidden m) (models (sop p))))
                 (filter (\<lambda>p. p_enabled (sop p)) pns))"


section \<open>The service\<close>

text \<open>Modelled from the spec: \<^verbatim>\<open>modelSelectionsEqual\<close> is imported from
  \<^verbatim>\<open>voidSettingsTypes.js\<close>, which is not in the source. The specification speaks of a
  selection being "present in the option list", so two selections are equal when
  both of their fields are.\<close>

definition modelSelectionsEqual :: "ModelSelection \<Rightarrow> ModelSelection \<Rightarrow> bool" where
  "modelSelectionsEqual m1 m2 =
     (providerName m1 = providerName m2 \<and> selModelName m1 = selModelName m2)"

text \<open>\<^verbatim>\<open>defaultState\<close>; \<^verbatim>\<open>deepClone\<close> copies a value structurally, which is the
  identity on values of HOL.\<close>

definition defaultState :: "Env \<Rightarrow> VoidSettingsState" where
  "defaultState env =
     \<lparr>settingsOfProvider = defaultSettingsOfProvider env,
      modelSelectionOfFeature = (\<lambda>f. None),
      featureFlagSettings = defaultFeatureFlagSettings env,
      modelOptions = computeModelOptions (providerNames env) (defaultSettingsOfProvider env)\<rparr>"

text \<open>\<^verbatim>\<open>_readState\<close>: \<^verbatim>\<open>!encryptedState\<close> holds for a missing record and for the empty
  string.\<close>

definition readState :: "Env \<Rightarrow> World \<Rightarrow> Error + VoidSettingsState" where
  "readState env w =
     (case storage w STORAGE_KEY of
        None \<Rightarrow> Inr (defaultState env)
      | Some encryptedState \<Rightarrow>
          if encryptedState = [] then Inr (defaultState env)
          else (case decrypt env encryptedState of
                  None \<Rightarrow> Inl DecryptRejected
                | Some stateStr \<Rightarrow>
                    (case JSON_parse env stateStr of
                       None \<Rightarrow> Inl JsonSyntaxError
                     | Some s \<Rightarrow> Inr s)))"

text \<open>The constructor: the state is the default state until \<^verbatim>\<open>_readState\<close> has
  resolved; then the state is replaced and \<^verbatim>\<open>'all'\<close> is fired. A rejected read
  leaves the default state in place and fires nothing.\<close>

definition construct :: "Env \<Rightarrow> (string \<Rightarrow> string option) \<Rightarrow> (Error + unit) \<times> World" where
  "construct env stg =
     (let w0 = \<lparr>state = defaultState env, storage = stg, fired = []\<rparr>
      in case readState env w0 of
           Inl e \<Rightarrow> (Inl e, w0)
         | Inr s \<Rightarrow> (Inr (), w0\<lparr>state := s, fired := fired w0 @ [EvAll]\<rparr>))"

text \<open>\<^verbatim>\<open>_storeState\<close>: reads \<^verbatim>\<open>this.state\<close> when it is called, encrypts the serialised
  state and writes it under the storage key. The write of the storage service is
  taken to succeed.\<close>

definition storeState :: "Env \<Rightarrow> World \<Rightarrow> (Error + unit) \<times> World" where
  "storeState env w =
     (let st = state w
      in case encrypt env (JSON_stringify env st) of
           None \<Rightarrow> (Inl EncryptRejected, w)
         | Some encryptedState \<Rightarrow> (Inr (), w\<lparr>storage := (storage w)(STORAGE_KEY \<mapsto> encryptedState)\<rparr>))"

definition fire :: "EventProp \<Rightarrow> World \<Rightarrow> World" where
  "fire ev w = w\<lparr>fired := fired w @ [ev]\<rparr>"

text \<open>The tail shared by the three asynchronous mutations:
  \<^verbatim>\<open>await this._storeState(); this._onDidChangeState.fire(ev)\<close>. A rejected
  \<^verbatim>\<open>await\<close> ends the call before the event is fired.\<close>

definition storeThenFire :: "Env \<Rightarrow> EventProp \<Rightarrow> World \<Rightarrow> (Error + unit) \<times> World" where
  "storeThenFire env ev w =
     (case storeState env w of
        (Inl e, w') \<Rightarrow> (Inl e, w')
      | (Inr u, w') \<Rightarrow> (Inr (), fire ev w'))"

text \<open>\<^verbatim>\<open>setModelSelectionOfFeature\<close>; the flag is \<^verbatim>\<open>options?.doNotApplyEffects\<close>.\<close>

definition setModelSelectionOfFeature ::
  "Env \<Rightarrow> FeatureName \<Rightarrow> ModelSelection option \<Rightarrow> bool \<Rightarrow> World \<Rightarrow> (Error + unit) \<times> World" where
  "setModelSelectionOfFeature env featureName newVal doNotApplyEffects w =
     (let newState = (state w)\<lparr>modelSelectionOfFeature :=
                        (modelSelectionOfFeature (state w))(featureName := newVal)\<rparr>;
          w1 = w\<lparr>state := newState\<rparr>
      in if doNotApplyEffects then (Inr (), w1)
         else storeThenFire env EvModelSelectionOfFeature w1)"

text \<open>\<^verbatim>\<open>setFeatureFlag\<close>.\<close>

definition setFeatureFlag :: "Env \<Rightarrow> FeatureFlagName \<Rightarrow> bool \<Rightarrow> World \<Rightarrow> (Error + unit) \<times> World" where
  "setFeatureFlag env flagName newVal w =
     (let newState = (state w)\<lparr>featureFlagSettings :=
                        (featureFlagSettings (state w))(flagName := newVal)\<rparr>;
          w1 = w\<lparr>state := newState\<rparr>
      in storeThenFire env EvFeatureFlagSettings w1)"

text \<open>
  The loop over \<^verbatim>\<open>featureNames\<close> in \<^verbatim>\<open>setSettingOfProvider\<close>. \<open>sel\<close> is
  \<^verbatim>\<open>newModelSelectionOfFeature\<close>, the selections read before the loop, and \<open>opts\<close> is
  \<^verbatim>\<open>newModelsList\<close>. The calls to \<^verbatim>\<open>setModelSelectionOfFeature\<close> are not awaited; with
  \<^verbatim>\<open>doNotApplyEffects\<close> they finish before they return.
\<close>

fun fixSelections ::
  "Env \<Rightarrow> ModelSelectionOfFeature \<Rightarrow> ModelOption list \<Rightarrow> FeatureName list \<Rightarrow> World \<Rightarrow> World" where
  "fixSelections env sel opts [] w = w"
| "fixSelections env sel opts (featureName # rest) w =
     (let currentSelection = sel featureName;
          selnIdx = (case currentSelection of
                       None \<Rightarrow> -1
                     | Some c \<Rightarrow> findIndex (\<lambda>m. modelSelectionsEqual (optValue m) c) opts)
      in if selnIdx = -1 then
           (if length opts \<noteq> 0
            then fixSelections env sel opts rest
                   (snd (setModelSelectionOfFeature env featureName (Some (optValue (opts ! 0))) True w))
            else fixSelections env sel opts rest
                   (snd (setModelSelectionOfFeature env featureName None True w)))
         else fixSelections env sel opts rest w)"

text \<open>The part of \<^verbatim>\<open>setSettingOfProvider\<close> that runs before its \<^verbatim>\<open>await\<close>.\<close>

definition setSettingOfProvider_sync :: "Env \<Rightarrow> ProviderName \<Rightarrow> Setting \<Rightarrow> World \<Rightarrow> World" where
  "setSettingOfProvider_sync env p newVal w =
     (let newModelSelectionOfFeature = modelSelectionOfFeature (state w);
          newSettingsOfProvider =
            (settingsOfProvider (state w))(p := writeSetting (settingsOfProvider (state w) p) newVal);
          newFeatureFlags = featureFlagSettings (state w);
          modelsListChanged = (settingName newVal = N_models \<or> settingName newVal = N_enabled);
          newModelsList = (if modelsListChanged
                           then computeModelOptions (providerNames env) newSettingsOfProvider
                           else modelOptions (state w));
          newState = \<lparr>settingsOfProvider = newSettingsOfProvider,
                      modelSelectionOfFeature = newModelSelectionOfFeature,
                      featureFlagSettings = newFeatureFlags,
                      modelOptions = newModelsList\<rparr>;
          w1 = w\<lparr>state := newState\<rparr>
      in if modelsListChanged
         then fixSelections env newModelSelectionOfFeature newModelsList (featureNames env) w1
         else w1)"

text \<open>\<^verbatim>\<open>setSettingOfProvider\<close>.\<close>

definition setSettingOfProvider ::
  "Env \<Rightarrow> ProviderName \<Rightarrow> Setting \<Rightarrow> World \<Rightarrow> (Error + unit) \<times> World" where
  "setSettingOfProvider env p newVal w =
     storeThenFire env EvSettingsOfProvider (setSettingOfProvider_sync env p newVal w)"

text \<open>
  The four list edits are synchronous and do not await \<^verbatim>\<open>setSettingOfProvider\<close>: a
  rejection of the promise is not seen by the caller, so only the world is kept.
\<close>

definition setDefaultModels :: "Env \<Rightarrow> ProviderName \<Rightarrow> string list \<Rightarrow> World \<Rightarrow> World" where
  "setDefaultModels env p newDefaultModelNames w =
     (let ms = models (settingsOfProvider (state w) p);
          newDefaultModels = modelInfoOfDefaultNames env newDefaultModelNames ms;
          newModels = newDefaultModels @ filter (\<lambda>m. \<not> isDefault m) ms
      in snd (setSettingOfProvider env p (Models newModels) w))"

definition toggleModelHidden :: "Env \<Rightarrow> ProviderName \<Rightarrow> string \<Rightarrow> World \<Rightarrow> World" where
  "toggleModelHidden env p name w =
     (let ms = models (settingsOfProvider (state w) p);
          modelIdx = findIndex (\<lambda>m. modelName m = name) ms
      in if modelIdx = -1 then w
         else
           (let newModels =
                  slice ms 0 (enat (nat modelIdx))
                  @ [(ms ! nat modelIdx)\<lparr>isHidden := \<not> isHidden (ms ! nat modelIdx)\<rparr>]
                  @ slice ms (nat (modelIdx + 1)) \<infinity>
            in snd (setSettingOfProvider env p (Models newModels) w)))"

definition addModel :: "Env \<Rightarrow> ProviderName \<Rightarrow> string \<Rightarrow> World \<Rightarrow> World" where
  "addModel env p name w =
     (let ms = models (settingsOfProvider (state w) p);
          existingIdx = findIndex (\<lambda>m. modelName m = name) ms
      in if existingIdx \<noteq> -1 then w
         else
           (let newModels = ms @ [\<lparr>modelName = name, isDefault = False, isHidden = False\<rparr>]
            in snd (setSettingOfProvider env p (Models newModels) w)))"

definition deleteModel :: "Env \<Rightarrow> ProviderName \<Rightarrow> string \<Rightarrow> World \<Rightarrow> bool \<times> World" where
  "deleteModel env p name w =
     (let ms = models (settingsOfProvider (state w) p);
          delIdx = findIndex (\<lambda>m. modelName m = name) ms
      in if delIdx = -1 then (False, w)
         else
           (let newModels = slice ms 0 (enat (nat delIdx)) @ slice ms (nat (delIdx + 1)) \<infinity>
            in (True, snd (setSettingOfProvider env p (Models newModels) w))))"

section \<open>The bridge to React (services.tsx)\<close>


text \<open>
  \<^verbatim>\<open>ColorScheme\<close> is an enumeration of \<^verbatim>\<open>platform/theme/common/theme.js\<close>. The source
  names its members \<^verbatim>\<open>DARK\<close> and \<^verbatim>\<open>HIGH_CONTRAST_DARK\<close>; the two light schemes stand
  for the members it does not name.
\<close>

datatype ColorScheme = DARK | LIGHT | HIGH_CONTRAST_DARK | HIGH_CONTRAST_LIGHT














section \<open>Notions used to state the properties\<close>

text \<open>A feature's selection needs a replacement when it is \<^verbatim>\<open>null\<close> or when no option
  of the list carries it.\<close>

definition selectionMissing :: "ModelSelection option \<Rightarrow> ModelOption list \<Rightarrow> bool" where
  "selectionMissing cur opts =
     (case cur of None \<Rightarrow> True | Some c \<Rightarrow> c \<notin> set (map optValue opts))"

text \<open>The replacement: the value of the first option, or \<^verbatim>\<open>null\<close> for an empty list.\<close>

definition fallbackSelection :: "ModelOption list \<Rightarrow> ModelSelection option" where
  "fallbackSelection opts = (case opts of [] \<Rightarrow> None | m # rest \<Rightarrow> Some (optValue m))"

text \<open>Model names are unique within the model list of every provider.\<close>

definition uniqueModelNames :: "ProviderName list \<Rightarrow> VoidSettingsState \<Rightarrow> bool" where
  "uniqueModelNames pns st =
     list_all (\<lambda>p. distinct (map modelName (models (settingsOfProvider st p)))) pns"

text \<open>The mutating methods of \<^verbatim>\<open>IVoidSettingsService\<close> as values, and a call of one
  of them on the service.\<close>

datatype Call =
    SetSettingOfProvider ProviderName Setting
  | SetModelSelectionOfFeature FeatureName "ModelSelection option"
  | SetFeatureFlag FeatureFlagName bool
  | SetDefaultModels ProviderName "string list"
  | ToggleModelHidden ProviderName string
  | AddModel ProviderName string
  | DeleteModel ProviderName string

fun exec :: "Env \<Rightarrow> Call \<Rightarrow> World \<Rightarrow> World" where
  "exec env (SetSettingOfProvider p v) w = snd (setSettingOfProvider env p v w)"
| "exec env (SetModelSelectionOfFeature f v) w = snd (setModelSelectionOfFeature env f v False w)"
| "exec env (SetFeatureFlag k b) w = snd (setFeatureFlag env k b w)"
| "exec env (SetDefaultModels p names) w = setDefaultModels env p names w"
| "exec env (ToggleModelHidden p name) w = toggleModelHidden env p name w"
| "exec env (AddModel p name) w = addModel env p name w"
| "exec env (DeleteModel p name) w = snd (deleteModel env p name w)"

text \<open>
  The calls that hand over a model list with unique names: a \<^verbatim>\<open>'models'\<close> setting
  whose list has no repeated name, and a \<^verbatim>\<open>setDefaultModels\<close> whose rebuilt list (the
  new default entries, then the kept non-default models) has none. Every other call
  qualifies.
\<close>

fun handsOverUniqueNames :: "Env \<Rightarrow> World \<Rightarrow> Call \<Rightarrow> bool" where
  "handsOverUniqueNames env w (SetSettingOfProvider p (Models ms)) = distinct (map modelName ms)"
| "handsOverUniqueNames env w (SetDefaultModels p names) =
     (let ms = models (settingsOfProvider (state w) p)
      in distinct (map modelName (modelInfoOfDefaultNames env names ms @ filter (\<lambda>m. \<not> isDefault m) ms)))"
| "handsOverUniqueNames env w c = True"

fun run :: "Env \<Rightarrow> Call list \<Rightarrow> World \<Rightarrow> World" where
  "run env [] w = w"
| "run env (c # cs) w = run env cs (exec env c w)"

fun runHandsOverUniqueNames :: "Env \<Rightarrow> Call list \<Rightarrow> World \<Rightarrow> bool" where
  "runHandsOverUniqueNames env [] w = True"
| "runHandsOverUniqueNames env (c # cs) w =
     (handsOverUniqueNames env w c \<and> runHandsOverUniqueNames env cs (exec env c w))"

section \<open>Concrete inputs\<close>

definition gpt4o :: VoidModelInfo where
  "gpt4o = \<lparr>modelName = ''gpt-4o'', isDefault = True, isHidden = False\<rparr>"

definition o1 :: VoidModelInfo where
  "o1 = \<lparr>modelName = ''o1'', isDefault = True, isHidden = True\<rparr>"

definition llama3 :: VoidModelInfo where
  "llama3 = \<lparr>modelName = ''llama3'', isDefault = False, isHidden = False\<rparr>"

definition exampleSettings :: SettingsOfProvider where
  "exampleSettings p =
     (if p = ''openai'' then \<lparr>p_enabled = True, models = [gpt4o, o1], custom = Map.empty\<rparr>
      else if p = ''ollama'' then \<lparr>p_enabled = True, models = [llama3], custom = Map.empty\<rparr>
      else \<lparr>p_enabled = False, models = [], custom = Map.empty\<rparr>)"

definition exampleEnv :: Env where
  "exampleEnv =
     \<lparr>providerNames = [''openai'', ''ollama''],
      featureNames = [CtrlL, CtrlK, Autocomplete],
      defaultSettingsOfProvider = exampleSettings,
      defaultFeatureFlagSettings = (\<lambda>k. False),
      modelInfoOfDefaultNames =
        (\<lambda>names existing. map (\<lambda>n. \<lparr>modelName = n, isDefault = True, isHidden = False\<rparr>) names),
      JSON_stringify = (\<lambda>st. ''doc''),
      JSON_parse = (\<lambda>str. None),
      encrypt = (\<lambda>str. Some (''enc:'' @ str)),
      decrypt = (\<lambda>str. Some (drop 4 str))\<rparr>"

text \<open>The same services with an encryption that rejects.\<close>

definition failingEnv :: Env where
  "failingEnv = exampleEnv\<lparr>encrypt := (\<lambda>str. None)\<rparr>"

text \<open>A service on first run, and one where \<^verbatim>\<open>'Ctrl+K'\<close> has selected the model of
  \<^verbatim>\<open>ollama\<close>.\<close>

definition freshWorld :: World where
  "freshWorld = \<lparr>state = defaultState exampleEnv, storage = Map.empty, fired = []\<rparr>"

definition llamaSelection :: ModelSelection where
  "llamaSelection = \<lparr>providerName = ''ollama'', selModelName = ''llama3''\<rparr>"


definition selectedWorld :: World where
  "selectedWorld =
     freshWorld\<lparr>state := (state freshWorld)\<lparr>modelSelectionOfFeature :=
                   (\<lambda>f. if f = CtrlK then Some llamaSelection else None)\<rparr>\<rparr>"

section \<open>The option list as a flattening\<close>

lemma pushModels_append:
  "pushModels p ms acc = acc @ map (\<lambda>m. mkOption p (modelName m)) (filter (\<lambda>m. \<not> isHidden m) ms)"
  by (induction ms arbitrary: acc) simp_all

lemma pushProviders_append:
  "pushProviders sop ps acc = acc @ flattenedOptions ps sop"
  by (induction ps arbitrary: acc) (simp_all add: flattenedOptions_def pushModels_append Let_def)

lemma computeModelOptions_flattened:
  "computeModelOptions pns sop = flattenedOptions pns sop"
  by (simp add: computeModelOptions_def pushProviders_append)

section \<open>Finding and slicing\<close>

lemma findIndexFrom_eq:
  "findIndexFrom i P xs =
     (if \<exists>x\<in>set xs. P x then int (i + length (takeWhile (\<lambda>x. \<not> P x) xs)) else -1)"
  by (induction xs arbitrary: i) simp_all

lemma findIndex_eq:
  "findIndex P xs =
     (if \<exists>x\<in>set xs. P x then int (length (takeWhile (\<lambda>x. \<not> P x) xs)) else -1)"
  by (simp add: findIndex_def findIndexFrom_eq)

lemma findIndex_none: "findIndex P xs = -1 \<longleftrightarrow> (\<forall>x\<in>set xs. \<not> P x)"
  by (simp add: findIndex_eq)

section \<open>Persisting and notifying\<close>

lemma storeState_state: "state (snd (storeState env w)) = state w"
  by (simp add: storeState_def Let_def split: option.splits)

lemma storeState_fired: "fired (snd (storeState env w)) = fired w"
  by (simp add: storeState_def Let_def split: option.splits)

lemma storeThenFire_state: "state (snd (storeThenFire env ev w)) = state w"
  by (simp add: storeThenFire_def storeState_def fire_def Let_def split: option.splits)

lemma storeThenFire_ok:
  "encrypt env (JSON_stringify env (state w)) = Some c \<Longrightarrow>
   storeThenFire env ev w = (Inr (), w\<lparr>storage := (storage w)(STORAGE_KEY \<mapsto> c), fired := fired w @ [ev]\<rparr>)"
  by (simp add: storeThenFire_def storeState_def fire_def Let_def)

lemma storeThenFire_rejected:
  "encrypt env (JSON_stringify env (state w)) = None \<Longrightarrow>
   storeThenFire env ev w = (Inl EncryptRejected, w)"
  by (simp add: storeThenFire_def storeState_def)

section \<open>The loop over the features\<close>

lemma modelSelectionsEqual_iff: "modelSelectionsEqual a b \<longleftrightarrow> a = b"
  by (cases a, cases b) (auto simp: modelSelectionsEqual_def)

lemma setModelSelectionOfFeature_quiet:
  "snd (setModelSelectionOfFeature env f v True w) =
     w\<lparr>state := (state w)\<lparr>modelSelectionOfFeature := (modelSelectionOfFeature (state w))(f := v)\<rparr>\<rparr>"
  by (simp add: setModelSelectionOfFeature_def)

lemma fixSelections_Cons:
  "fixSelections env sel opts (f # rest) w =
     fixSelections env sel opts rest
       (if selectionMissing (sel f) opts
        then w\<lparr>state := (state w)\<lparr>modelSelectionOfFeature :=
                 (modelSelectionOfFeature (state w))(f := fallbackSelection opts)\<rparr>\<rparr>
        else w)"
  by (cases opts)
     (auto simp: Let_def setModelSelectionOfFeature_quiet selectionMissing_def
        fallbackSelection_def findIndex_none modelSelectionsEqual_iff
        split: option.splits)

lemma fixSelections_storage: "storage (fixSelections env sel opts fs w) = storage w"
  by (induction fs arbitrary: w) (simp_all add: fixSelections_Cons del: fixSelections.simps(2))

lemma fixSelections_fired: "fired (fixSelections env sel opts fs w) = fired w"
  by (induction fs arbitrary: w) (simp_all add: fixSelections_Cons del: fixSelections.simps(2))

lemma fixSelections_settings:
  "settingsOfProvider (state (fixSelections env sel opts fs w)) = settingsOfProvider (state w)"
  by (induction fs arbitrary: w) (simp_all add: fixSelections_Cons del: fixSelections.simps(2))

lemma fixSelections_flags:
  "featureFlagSettings (state (fixSelections env sel opts fs w)) = featureFlagSettings (state w)"
  by (induction fs arbitrary: w) (simp_all add: fixSelections_Cons del: fixSelections.simps(2))

lemma fixSelections_options:
  "modelOptions (state (fixSelections env sel opts fs w)) = modelOptions (state w)"
  by (induction fs arbitrary: w) (simp_all add: fixSelections_Cons del: fixSelections.simps(2))

lemma fixSelections_selection:
  "modelSelectionOfFeature (state (fixSelections env sel opts fs w)) f =
     (if f \<in> set fs \<and> selectionMissing (sel f) opts then fallbackSelection opts
      else modelSelectionOfFeature (state w) f)"
  by (induction fs arbitrary: w) (simp_all add: fixSelections_Cons del: fixSelections.simps(2))


section \<open>The synchronous part of setSettingOfProvider\<close>

lemma sync_settings:
  "settingsOfProvider (state (setSettingOfProvider_sync env p newVal w)) =
     (settingsOfProvider (state w))(p := writeSetting (settingsOfProvider (state w) p) newVal)"
  by (simp add: setSettingOfProvider_sync_def Let_def fixSelections_settings)

lemma sync_flags:
  "featureFlagSettings (state (setSettingOfProvider_sync env p newVal w)) =
     featureFlagSettings (state w)"
  by (simp add: setSettingOfProvider_sync_def Let_def fixSelections_flags)

lemma sync_storage: "storage (setSettingOfProvider_sync env p newVal w) = storage w"
  by (simp add: setSettingOfProvider_sync_def Let_def fixSelections_storage)

lemma sync_fired: "fired (setSettingOfProvider_sync env p newVal w) = fired w"
  by (simp add: setSettingOfProvider_sync_def Let_def fixSelections_fired)

lemma sync_options:
  "modelOptions (state (setSettingOfProvider_sync env p newVal w)) =
     (if settingName newVal = N_models \<or> settingName newVal = N_enabled
      then computeModelOptions (providerNames env)
             ((settingsOfProvider (state w))(p := writeSetting (settingsOfProvider (state w) p) newVal))
      else modelOptions (state w))"
  by (simp add: setSettingOfProvider_sync_def Let_def fixSelections_options)

lemma sync_selection:
  "modelSelectionOfFeature (state (setSettingOfProvider_sync env p newVal w)) f =
     (if (settingName newVal = N_models \<or> settingName newVal = N_enabled) \<and>
         f \<in> set (featureNames env) \<and>
         selectionMissing (modelSelectionOfFeature (state w) f)
           (modelOptions (state (setSettingOfProvider_sync env p newVal w)))
      then fallbackSelection (modelOptions (state (setSettingOfProvider_sync env p newVal w)))
      else modelSelectionOfFeature (state w) f)"
  by (simp add: setSettingOfProvider_sync_def Let_def fixSelections_selection fixSelections_options)

lemma set_state:
  "state (snd (setSettingOfProvider env p newVal w)) = state (setSettingOfProvider_sync env p newVal w)"
  by (simp add: setSettingOfProvider_def storeThenFire_state)

lemma set_models:
  "models (settingsOfProvider (state (snd (setSettingOfProvider env p (Models ms) w))) q) =
     (if q = p then ms else models (settingsOfProvider (state w) q))"
  by (simp add: set_state sync_settings)

section \<open>The derived option list (C2)\<close>

text \<open>
  Claim C2. For every settings document, \<^verbatim>\<open>_computeModelOptions\<close> yields the flattened
  list of the entries of all enabled providers' non-hidden models, in provider order
  then model order. After \<^verbatim>\<open>setSettingOfProvider(p, '_enabled', false)\<close> the stored
  option list is that flattening of the new settings and holds no option of \<open>p\<close>;
  after setting the flag back to \<^verbatim>\<open>true\<close> it is again the flattening of the settings,
  every non-hidden model of a listed provider \<open>p\<close> has its option in the list, and if
  \<open>p\<close> was enabled at the start the list is the flattening of the settings the
  service started from.
\<close>

theorem modelOptions_flattened:
  "computeModelOptions pns sop = flattenedOptions pns sop \<and>
   (let w1 = snd (setSettingOfProvider env p (Enabled False) w);
        w2 = snd (setSettingOfProvider env p (Enabled True) w1)
    in modelOptions (state w1) = flattenedOptions (providerNames env) (settingsOfProvider (state w1)) \<and>
       (\<forall>opt \<in> set (modelOptions (state w1)). providerName (optValue opt) \<noteq> p) \<and>
       modelOptions (state w2) = flattenedOptions (providerNames env) (settingsOfProvider (state w2)) \<and>
       (p \<in> set (providerNames env) \<longrightarrow>
          (\<forall>m \<in> set (models (settingsOfProvider (state w) p)).
             \<not> isHidden m \<longrightarrow> mkOption p (modelName m) \<in> set (modelOptions (state w2)))) \<and>
       (p_enabled (settingsOfProvider (state w) p) \<longrightarrow>
          modelOptions (state w2) = flattenedOptions (providerNames env) (settingsOfProvider (state w))))"
proof -
  let ?sop = "settingsOfProvider (state w)"
  let ?w1 = "snd (setSettingOfProvider env p (Enabled False) w)"
  let ?w2 = "snd (setSettingOfProvider env p (Enabled True) ?w1)"
  have s1: "settingsOfProvider (state ?w1) = ?sop(p := (?sop p)\<lparr>p_enabled := False\<rparr>)"
    by (simp add: set_state sync_settings)
  have s2: "settingsOfProvider (state ?w2) = ?sop(p := (?sop p)\<lparr>p_enabled := True\<rparr>)"
    by (simp add: set_state sync_settings)
  have o1: "modelOptions (state ?w1) = flattenedOptions (providerNames env) (settingsOfProvider (state ?w1))"
    by (simp add: set_state sync_options sync_settings computeModelOptions_flattened)
  have o2: "modelOptions (state ?w2) = flattenedOptions (providerNames env) (settingsOfProvider (state ?w2))"
    by (simp add: set_state sync_options sync_settings computeModelOptions_flattened)
  have gone: "\<forall>opt \<in> set (modelOptions (state ?w1)). providerName (optValue opt) \<noteq> p"
    unfolding o1 s1 by (auto simp: flattenedOptions_def mkOption_def)
  have restored: "p \<in> set (providerNames env) \<longrightarrow>
          (\<forall>m \<in> set (models (?sop p)).
             \<not> isHidden m \<longrightarrow> mkOption p (modelName m) \<in> set (modelOptions (state ?w2)))"
    unfolding o2 s2 by (auto simp: flattenedOptions_def)
  have same: "p_enabled (?sop p) \<longrightarrow>
          modelOptions (state ?w2) = flattenedOptions (providerNames env) ?sop"
  proof
    assume "p_enabled (?sop p)"
    then have "?sop(p := (?sop p)\<lparr>p_enabled := True\<rparr>) = ?sop"
      by (simp add: fun_eq_iff)
    then show "modelOptions (state ?w2) = flattenedOptions (providerNames env) ?sop"
      using o2 s2 by simp
  qed
  show ?thesis
    unfolding Let_def using computeModelOptions_flattened o1 o2 gone restored same by blast
qed

section \<open>The frame of setSettingOfProvider (C3)\<close>

text \<open>
  Claim C3. After \<^verbatim>\<open>setSettingOfProvider(providerName, settingName, newVal)\<close> a read
  of \<^verbatim>\<open>state.settingsOfProvider[providerName][settingName]\<close> returns exactly
  \<^verbatim>\<open>newVal\<close>; every other setting of the same provider and every setting of every
  other provider is what it was before the call.
\<close>

theorem setSettingOfProvider_frame:
  "(let sop = settingsOfProvider (state w);
        sop' = settingsOfProvider (state (snd (setSettingOfProvider env p newVal w)))
    in readSetting (sop' p) (settingName newVal) = Some newVal \<and>
       (\<forall>n. n \<noteq> settingName newVal \<longrightarrow> readSetting (sop' p) n = readSetting (sop p) n) \<and>
       (\<forall>q. q \<noteq> p \<longrightarrow> sop' q = sop q))"
proof -
  have a: "readSetting (writeSetting ps newVal) (settingName newVal) = Some newVal" for ps
    by (cases newVal) simp_all
  have b: "n \<noteq> settingName newVal \<Longrightarrow> readSetting (writeSetting ps newVal) n = readSetting ps n" for ps n
    by (cases newVal; cases n) auto
  show ?thesis
    by (simp add: Let_def set_state sync_settings a b)
qed

lemma findIndex_found:
  assumes "\<exists>x\<in>set xs. P x"
  shows "\<exists>pre x post. xs = pre @ x # post \<and> P x \<and> (\<forall>y\<in>set pre. \<not> P y) \<and>
           findIndex P xs = int (length pre)"
proof -
  from assms obtain pre x post where "xs = pre @ x # post" "P x" "\<forall>y\<in>set pre. \<not> P y"
    by (metis split_list_first_prop)
  moreover from this have "takeWhile (\<lambda>x. \<not> P x) xs = pre"
    by (simp add: takeWhile_append2) 
  ultimately show ?thesis using assms by (auto simp: findIndex_eq)
qed

lemma slice_prefix: "slice (pre @ x # post) 0 (enat (length pre)) = pre"
  by (simp add: slice_def)

lemma slice_suffix: "slice (pre @ x # post) (Suc (length pre)) \<infinity> = post"
  by (simp add: slice_def)

section \<open>deleteModel (C6)\<close>

text \<open>
  Claim C6. \<^verbatim>\<open>deleteModel(providerName, modelName)\<close> returns \<^verbatim>\<open>false\<close> and changes
  nothing when no model of the provider has that name. Otherwise it returns
  \<^verbatim>\<open>true\<close>, and the provider's new list is the old one without one entry, the first
  one with that name: the entries before it and after it stay, in their order.
\<close>

theorem deleteModel_removes_one:
  "(let ms = models (settingsOfProvider (state w) p);
        r = deleteModel env p name w;
        ms' = models (settingsOfProvider (state (snd r)) p)
    in (name \<notin> set (map modelName ms) \<longrightarrow> fst r = False \<and> snd r = w) \<and>
       (name \<in> set (map modelName ms) \<longrightarrow>
          fst r = True \<and>
          (\<exists>pre m post. ms = pre @ m # post \<and> modelName m = name \<and>
                         name \<notin> set (map modelName pre) \<and> ms' = pre @ post)))"
proof -
  let ?ms = "models (settingsOfProvider (state w) p)"
  let ?P = "\<lambda>m. modelName m = name"
  have absent: "name \<notin> set (map modelName ?ms) \<Longrightarrow> deleteModel env p name w = (False, w)"
    by (auto simp: deleteModel_def Let_def findIndex_eq)
  have present: "fst (deleteModel env p name w) = True \<and>
          (\<exists>pre m post. ?ms = pre @ m # post \<and> modelName m = name \<and>
             name \<notin> set (map modelName pre) \<and>
             models (settingsOfProvider (state (snd (deleteModel env p name w))) p) = pre @ post)"
    if "name \<in> set (map modelName ?ms)"
  proof -
    from that have "\<exists>x\<in>set ?ms. ?P x" by auto
    from findIndex_found[OF this] obtain pre m post where
      sp: "?ms = pre @ m # post" "modelName m = name" "\<forall>y\<in>set pre. modelName y \<noteq> name"
      and ix: "findIndex ?P ?ms = int (length pre)" by blast
    have "deleteModel env p name w =
            (True, snd (setSettingOfProvider env p (Models (pre @ post)) w))"
      using ix sp(1) slice_prefix[of pre m post] slice_suffix[of pre m post]
      by (simp add: deleteModel_def Let_def nat_add_distrib)
    then have "fst (deleteModel env p name w) = True"
      and "models (settingsOfProvider (state (snd (deleteModel env p name w))) p) = pre @ post"
      by (simp_all add: set_models)
    moreover have "name \<notin> set (map modelName pre)" using sp(3) by auto
    ultimately show ?thesis using sp(1,2) by blast
  qed
  show ?thesis unfolding Let_def using absent present by auto
qed


lemma findIndex_absent: "name \<notin> set (map modelName ms) \<Longrightarrow> findIndex (\<lambda>m. modelName m = name) ms = -1"
  by (auto simp: findIndex_eq)

lemma findIndex_present: "name \<in> set (map modelName ms) \<Longrightarrow> findIndex (\<lambda>m. modelName m = name) ms \<noteq> -1"
  by (auto simp: findIndex_eq)

lemma addModel_fresh:
  "name \<notin> set (map modelName (models (settingsOfProvider (state w) p))) \<Longrightarrow>
   addModel env p name w =
     snd (setSettingOfProvider env p
            (Models (models (settingsOfProvider (state w) p)
                     @ [\<lparr>modelName = name, isDefault = False, isHidden = False\<rparr>])) w)"
  by (simp add: addModel_def Let_def findIndex_absent)

lemma addModel_existing:
  "name \<in> set (map modelName (models (settingsOfProvider (state w) p))) \<Longrightarrow>
   addModel env p name w = w"
  by (simp add: addModel_def Let_def findIndex_present)

section \<open>addModel (C7)\<close>

text \<open>
  Claim C7. Calling \<^verbatim>\<open>addModel\<close> twice with the same name leaves the service as one
  call does, so the model list is the same: the second call is a no-op. One call
  with a name that is not in the list appends exactly the entry
  \<^verbatim>\<open>{modelName, isDefault: false, isHidden: false}\<close> after the prior entries; one
  call with a name that is in the list changes nothing.
\<close>

theorem addModel_idempotent:
  "(let ms = models (settingsOfProvider (state w) p);
        w1 = addModel env p name w;
        w2 = addModel env p name w1
    in w2 = w1 \<and>
       models (settingsOfProvider (state w2) p) = models (settingsOfProvider (state w1) p) \<and>
       (name \<notin> set (map modelName ms) \<longrightarrow>
          models (settingsOfProvider (state w1) p) =
            ms @ [\<lparr>modelName = name, isDefault = False, isHidden = False\<rparr>]) \<and>
       (name \<in> set (map modelName ms) \<longrightarrow> w1 = w))"
proof -
  let ?ms = "models (settingsOfProvider (state w) p)"
  let ?w1 = "addModel env p name w"
  have fresh: "models (settingsOfProvider (state ?w1) p) =
                 ?ms @ [\<lparr>modelName = name, isDefault = False, isHidden = False\<rparr>]"
    if "name \<notin> set (map modelName ?ms)"
    using that by (simp add: addModel_fresh set_models)
  have there: "name \<in> set (map modelName (models (settingsOfProvider (state ?w1) p)))"
  proof (cases "name \<in> set (map modelName ?ms)")
    case True
    then show ?thesis by (simp add: addModel_existing)
  next
    case False
    then show ?thesis by (simp add: fresh)
  qed
  have again: "addModel env p name ?w1 = ?w1"
    using there by (rule addModel_existing)
  show ?thesis
    unfolding Let_def using again fresh addModel_existing[of name w p env] by simp
qed

section \<open>First run (C8)\<close>

text \<open>
  Claim C8. When no record is stored under the storage key, \<^verbatim>\<open>_readState\<close> resolves
  to the default state and raises no error: the default settings of the providers,
  the default feature flags and a \<^verbatim>\<open>null\<close> model selection for every feature. The
  constructor then ends with that state and one \<^verbatim>\<open>'all'\<close> event.
\<close>

theorem readState_first_run:
  "storage w STORAGE_KEY = None \<Longrightarrow>
   readState env w = Inr (defaultState env) \<and>
   settingsOfProvider (defaultState env) = defaultSettingsOfProvider env \<and>
   featureFlagSettings (defaultState env) = defaultFeatureFlagSettings env \<and>
   (\<forall>f. modelSelectionOfFeature (defaultState env) f = None) \<and>
   (storage w = stg \<longrightarrow>
      construct env stg = (Inr (), \<lparr>state = defaultState env, storage = stg, fired = [EvAll]\<rparr>))"
  by (auto simp: readState_def defaultState_def construct_def Let_def)

section \<open>A null selection is replaced (C10)\<close>

text \<open>
  Claim C10. After a call to \<^verbatim>\<open>setSettingOfProvider\<close> with setting \<^verbatim>\<open>'models'\<close> or
  \<^verbatim>\<open>'_enabled'\<close> that leaves a non-empty option list, every feature of
  \<^verbatim>\<open>featureNames\<close> whose selection was \<^verbatim>\<open>null\<close> has the value of the first option of
  the new list as its selection.
\<close>

theorem null_selection_replaced:
  assumes "settingName newVal = N_models \<or> settingName newVal = N_enabled"
    and "f \<in> set (featureNames env)"
    and "modelSelectionOfFeature (state w) f = None"
    and "modelOptions (state (snd (setSettingOfProvider env p newVal w))) = opt # rest"
  shows "modelSelectionOfFeature (state (snd (setSettingOfProvider env p newVal w))) f =
           Some (optValue opt)"
proof -
  let ?w' = "setSettingOfProvider_sync env p newVal w"
  have opts: "modelOptions (state ?w') = opt # rest"
    using assms(4) by (simp add: set_state)
  have "modelSelectionOfFeature (state ?w') f = fallbackSelection (modelOptions (state ?w'))"
    using assms(1,2,3) by (subst sync_selection) (simp add: selectionMissing_def)
  then show ?thesis
    by (simp add: set_state opts fallbackSelection_def)
qed

section \<open>An invalid selection is reassigned quietly (C1)\<close>

text \<open>
  Claim C1. After a call to \<^verbatim>\<open>setSettingOfProvider\<close> with setting \<^verbatim>\<open>'models'\<close> or
  \<^verbatim>\<open>'_enabled'\<close> the option list is recomputed from the new settings, and every
  feature of \<^verbatim>\<open>featureNames\<close> whose selected model is not among the values of the new
  list has the value of the first option as its selection, or \<^verbatim>\<open>null\<close> if the list is
  empty. The state with these reassignments is the one that is serialised and
  stored by the call; when the store succeeds the call fires exactly one event,
  \<^verbatim>\<open>'settingsOfProvider'\<close>, and when the encryption rejects it fires none. In no case
  is \<^verbatim>\<open>'modelSelectionOfFeature'\<close> among the events the call fires.
\<close>

theorem invalid_selection_reassigned:
  assumes changed: "settingName newVal = N_models \<or> settingName newVal = N_enabled"
  shows "(let r = setSettingOfProvider env p newVal w;
              w' = snd r;
              opts = modelOptions (state w')
          in opts = computeModelOptions (providerNames env) (settingsOfProvider (state w')) \<and>
             (\<forall>f \<in> set (featureNames env). \<forall>c.
                 modelSelectionOfFeature (state w) f = Some c \<and> c \<notin> set (map optValue opts) \<longrightarrow>
                 modelSelectionOfFeature (state w') f =
                   (case opts of [] \<Rightarrow> None | m # rest \<Rightarrow> Some (optValue m))) \<and>
             (\<forall>enc. encrypt env (JSON_stringify env (state w')) = Some enc \<longrightarrow>
                 fst r = Inr () \<and> storage w' STORAGE_KEY = Some enc \<and>
                 fired w' = fired w @ [EvSettingsOfProvider]) \<and>
             (encrypt env (JSON_stringify env (state w')) = None \<longrightarrow>
                 fst r = Inl EncryptRejected \<and> fired w' = fired w) \<and>
             EvModelSelectionOfFeature \<notin> set (drop (length (fired w)) (fired w')))"
proof -
  let ?m = "setSettingOfProvider_sync env p newVal w"
  let ?r = "setSettingOfProvider env p newVal w"
  have st: "state (snd ?r) = state ?m" by (rule set_state)
  have opts: "modelOptions (state ?m) =
                computeModelOptions (providerNames env) (settingsOfProvider (state ?m))"
    using changed by (simp add: sync_options sync_settings)
  have sel: "modelSelectionOfFeature (state ?m) f =
               (case modelOptions (state ?m) of [] \<Rightarrow> None | m # rest \<Rightarrow> Some (optValue m))"
    if "f \<in> set (featureNames env)" "modelSelectionOfFeature (state w) f = Some c"
       "c \<notin> set (map optValue (modelOptions (state ?m)))" for f c
    using that changed
    by (subst sync_selection) (simp add: selectionMissing_def fallbackSelection_def)
  have ok: "fst ?r = Inr () \<and> storage (snd ?r) STORAGE_KEY = Some enc \<and>
            fired (snd ?r) = fired w @ [EvSettingsOfProvider]"
    if "encrypt env (JSON_stringify env (state ?m)) = Some enc" for enc
    using that by (simp add: setSettingOfProvider_def storeThenFire_ok sync_fired)
  have rej: "fst ?r = Inl EncryptRejected \<and> fired (snd ?r) = fired w"
    if "encrypt env (JSON_stringify env (state ?m)) = None"
    using that by (simp add: setSettingOfProvider_def storeThenFire_rejected sync_fired)
  have quiet: "EvModelSelectionOfFeature \<notin> set (drop (length (fired w)) (fired (snd ?r)))"
  proof (cases "encrypt env (JSON_stringify env (state ?m))")
    case None
    then show ?thesis using rej by simp
  next
    case (Some enc)
    then show ?thesis using ok by simp
  qed
  show ?thesis
    unfolding Let_def st using opts sel ok rej quiet unfolding st by blast
qed

section \<open>No rollback (C4)\<close>

text \<open>
  Claim C4. For \<^verbatim>\<open>setSettingOfProvider\<close>, \<^verbatim>\<open>setModelSelectionOfFeature\<close> without
  \<^verbatim>\<open>doNotApplyEffects\<close> and \<^verbatim>\<open>setFeatureFlag\<close>: the in-memory state after the call
  is the mutated state \<open>m\<close>, whatever the persist step does, and it is this state that
  is handed to the persist step. If the persist step succeeds the call returns
  normally, the encrypted document is stored and exactly one event is fired; if it
  throws, the call throws, the state is the mutated one, nothing is stored and no
  event is fired.
\<close>

theorem mutation_before_persist:
  "(let m = setSettingOfProvider_sync env p newVal w;
        r = setSettingOfProvider env p newVal w
    in settingsOfProvider (state m) p = writeSetting (settingsOfProvider (state w) p) newVal \<and>
       state (snd r) = state m \<and>
       (\<forall>enc. encrypt env (JSON_stringify env (state m)) = Some enc \<longrightarrow>
          r = (Inr (), m\<lparr>storage := (storage w)(STORAGE_KEY \<mapsto> enc),
                          fired := fired w @ [EvSettingsOfProvider]\<rparr>)) \<and>
       (encrypt env (JSON_stringify env (state m)) = None \<longrightarrow>
          r = (Inl EncryptRejected, m) \<and> fired m = fired w \<and> storage m = storage w)) \<and>
   (let m = w\<lparr>state := (state w)\<lparr>modelSelectionOfFeature :=
                 (modelSelectionOfFeature (state w))(f := sel)\<rparr>\<rparr>;
        r = setModelSelectionOfFeature env f sel False w
    in state (snd r) = state m \<and>
       (\<forall>enc. encrypt env (JSON_stringify env (state m)) = Some enc \<longrightarrow>
          r = (Inr (), m\<lparr>storage := (storage w)(STORAGE_KEY \<mapsto> enc),
                          fired := fired w @ [EvModelSelectionOfFeature]\<rparr>)) \<and>
       (encrypt env (JSON_stringify env (state m)) = None \<longrightarrow>
          r = (Inl EncryptRejected, m))) \<and>
   (let m = w\<lparr>state := (state w)\<lparr>featureFlagSettings :=
                 (featureFlagSettings (state w))(k := b)\<rparr>\<rparr>;
        r = setFeatureFlag env k b w
    in state (snd r) = state m \<and>
       (\<forall>enc. encrypt env (JSON_stringify env (state m)) = Some enc \<longrightarrow>
          r = (Inr (), m\<lparr>storage := (storage w)(STORAGE_KEY \<mapsto> enc),
                          fired := fired w @ [EvFeatureFlagSettings]\<rparr>)) \<and>
       (encrypt env (JSON_stringify env (state m)) = None \<longrightarrow>
          r = (Inl EncryptRejected, m)))"
proof -
  have one: "(let m = setSettingOfProvider_sync env p newVal w;
        r = setSettingOfProvider env p newVal w
    in settingsOfProvider (state m) p = writeSetting (settingsOfProvider (state w) p) newVal \<and>
       state (snd r) = state m \<and>
       (\<forall>enc. encrypt env (JSON_stringify env (state m)) = Some enc \<longrightarrow>
          r = (Inr (), m\<lparr>storage := (storage w)(STORAGE_KEY \<mapsto> enc),
                          fired := fired w @ [EvSettingsOfProvider]\<rparr>)) \<and>
       (encrypt env (JSON_stringify env (state m)) = None \<longrightarrow>
          r = (Inl EncryptRejected, m) \<and> fired m = fired w \<and> storage m = storage w))"
    by (simp add: Let_def sync_settings sync_fired sync_storage storeThenFire_state
          setSettingOfProvider_def storeThenFire_ok storeThenFire_rejected)
  have two: "(let m = w\<lparr>state := (state w)\<lparr>modelSelectionOfFeature :=
                 (modelSelectionOfFeature (state w))(f := sel)\<rparr>\<rparr>;
        r = setModelSelectionOfFeature env f sel False w
    in state (snd r) = state m \<and>
       (\<forall>enc. encrypt env (JSON_stringify env (state m)) = Some enc \<longrightarrow>
          r = (Inr (), m\<lparr>storage := (storage w)(STORAGE_KEY \<mapsto> enc),
                          fired := fired w @ [EvModelSelectionOfFeature]\<rparr>)) \<and>
       (encrypt env (JSON_stringify env (state m)) = None \<longrightarrow>
          r = (Inl EncryptRejected, m)))"
    by (simp add: Let_def setModelSelectionOfFeature_def storeThenFire_state
          storeThenFire_ok storeThenFire_rejected)
  have three: "(let m = w\<lparr>state := (state w)\<lparr>featureFlagSettings :=
                 (featureFlagSettings (state w))(k := b)\<rparr>\<rparr>;
        r = setFeatureFlag env k b w
    in state (snd r) = state m \<and>
       (\<forall>enc. encrypt env (JSON_stringify env (state m)) = Some enc \<longrightarrow>
          r = (Inr (), m\<lparr>storage := (storage w)(STORAGE_KEY \<mapsto> enc),
                          fired := fired w @ [EvFeatureFlagSettings]\<rparr>)) \<and>
       (encrypt env (JSON_stringify env (state m)) = None \<longrightarrow>
          r = (Inl EncryptRejected, m)))"
    by (simp add: Let_def setFeatureFlag_def storeThenFire_state
          storeThenFire_ok storeThenFire_rejected)
  from one two three show ?thesis by (intro conjI)
qed


lemma uniq_set_models:
  "uniqueModelNames pns (state w) \<Longrightarrow> distinct (map modelName ms) \<Longrightarrow>
   uniqueModelNames pns (state (snd (setSettingOfProvider env p (Models ms) w)))"
  by (simp add: uniqueModelNames_def list_all_iff set_models)

lemma uniq_set_models_same_names:
  assumes "uniqueModelNames pns (state w)"
    and "p \<in> set pns \<Longrightarrow> distinct (map modelName (models (settingsOfProvider (state w) p)))
           \<Longrightarrow> distinct (map modelName ms)"
  shows "uniqueModelNames pns (state (snd (setSettingOfProvider env p (Models ms) w)))"
  using assms by (auto simp: uniqueModelNames_def list_all_iff set_models)

lemma uniq_setSetting_other:
  "settingName v \<noteq> N_models \<Longrightarrow> uniqueModelNames pns (state w) \<Longrightarrow>
   uniqueModelNames pns (state (snd (setSettingOfProvider env p v w)))"
  by (cases v) (simp_all add: uniqueModelNames_def list_all_iff set_state sync_settings)

lemma uniq_setSelection:
  "uniqueModelNames pns (state w) \<Longrightarrow>
   uniqueModelNames pns (state (snd (setModelSelectionOfFeature env f v quiet w)))"
  by (simp add: setModelSelectionOfFeature_def Let_def storeThenFire_state uniqueModelNames_def)

lemma uniq_setFlag:
  "uniqueModelNames pns (state w) \<Longrightarrow>
   uniqueModelNames pns (state (snd (setFeatureFlag env k b w)))"
  by (simp add: setFeatureFlag_def Let_def storeThenFire_state uniqueModelNames_def)

lemma uniq_addModel:
  assumes "uniqueModelNames pns (state w)"
  shows "uniqueModelNames pns (state (addModel env p name w))"
proof (cases "name \<in> set (map modelName (models (settingsOfProvider (state w) p)))")
  case True
  then show ?thesis using assms by (simp add: addModel_existing)
next
  case False
  then show ?thesis
    using assms by (simp add: addModel_fresh uniq_set_models_same_names)
qed

lemma deleteModel_cases:
  "deleteModel env p name w = (False, w) \<or>
   (\<exists>pre m post. models (settingsOfProvider (state w) p) = pre @ m # post \<and>
      deleteModel env p name w = (True, snd (setSettingOfProvider env p (Models (pre @ post)) w)))"
proof (cases "name \<in> set (map modelName (models (settingsOfProvider (state w) p)))")
  case False
  then show ?thesis by (simp add: deleteModel_def Let_def findIndex_absent)
next
  case True
  let ?ms = "models (settingsOfProvider (state w) p)"
  from True have "\<exists>x\<in>set ?ms. modelName x = name" by auto
  from findIndex_found[OF this] obtain pre m post where
    sp: "?ms = pre @ m # post" and ix: "findIndex (\<lambda>m. modelName m = name) ?ms = int (length pre)"
    by blast
  have "deleteModel env p name w =
          (True, snd (setSettingOfProvider env p (Models (pre @ post)) w))"
    using ix sp slice_prefix[of pre m post] slice_suffix[of pre m post]
    by (simp add: deleteModel_def Let_def nat_add_distrib)
  then show ?thesis using sp by blast
qed

lemma uniq_deleteModel:
  assumes "uniqueModelNames pns (state w)"
  shows "uniqueModelNames pns (state (snd (deleteModel env p name w)))"
  using deleteModel_cases[of env p name w]
proof
  assume "deleteModel env p name w = (False, w)"
  then show ?thesis using assms by simp
next
  assume "\<exists>pre m post. models (settingsOfProvider (state w) p) = pre @ m # post \<and>
      deleteModel env p name w = (True, snd (setSettingOfProvider env p (Models (pre @ post)) w))"
  then obtain pre m post where sp: "models (settingsOfProvider (state w) p) = pre @ m # post"
    and d: "deleteModel env p name w = (True, snd (setSettingOfProvider env p (Models (pre @ post)) w))"
    by blast
  show ?thesis
    unfolding d snd_conv using assms
    by (rule uniq_set_models_same_names) (simp add: sp)
qed

lemma toggleModelHidden_cases:
  "toggleModelHidden env p name w = w \<or>
   (\<exists>pre m post. models (settingsOfProvider (state w) p) = pre @ m # post \<and>
      toggleModelHidden env p name w =
        snd (setSettingOfProvider env p
               (Models (pre @ [m\<lparr>isHidden := \<not> isHidden m\<rparr>] @ post)) w))"
proof (cases "name \<in> set (map modelName (models (settingsOfProvider (state w) p)))")
  case False
  then show ?thesis by (simp add: toggleModelHidden_def Let_def findIndex_absent)
next
  case True
  let ?ms = "models (settingsOfProvider (state w) p)"
  from True have "\<exists>x\<in>set ?ms. modelName x = name" by auto
  from findIndex_found[OF this] obtain pre m post where
    sp: "?ms = pre @ m # post" and ix: "findIndex (\<lambda>m. modelName m = name) ?ms = int (length pre)"
    by blast
  have "toggleModelHidden env p name w =
          snd (setSettingOfProvider env p
                 (Models (pre @ [m\<lparr>isHidden := \<not> isHidden m\<rparr>] @ post)) w)"
    using ix sp slice_prefix[of pre m post] slice_suffix[of pre m post]
    by (simp add: toggleModelHidden_def Let_def nat_add_distrib)
  then show ?thesis using sp by blast
qed

lemma uniq_toggleModelHidden:
  assumes "uniqueModelNames pns (state w)"
  shows "uniqueModelNames pns (state (toggleModelHidden env p name w))"
  using toggleModelHidden_cases[of env p name w]
proof
  assume "toggleModelHidden env p name w = w"
  then show ?thesis using assms by simp
next
  assume "\<exists>pre m post. models (settingsOfProvider (state w) p) = pre @ m # post \<and>
      toggleModelHidden env p name w =
        snd (setSettingOfProvider env p
               (Models (pre @ [m\<lparr>isHidden := \<not> isHidden m\<rparr>] @ post)) w)"
  then obtain pre m post where sp: "models (settingsOfProvider (state w) p) = pre @ m # post"
    and d: "toggleModelHidden env p name w =
        snd (setSettingOfProvider env p
               (Models (pre @ [m\<lparr>isHidden := \<not> isHidden m\<rparr>] @ post)) w)"
    by blast
  show ?thesis
    unfolding d using assms
    by (rule uniq_set_models_same_names) (simp add: sp)
qed

lemma uniq_exec:
  "uniqueModelNames pns (state w) \<Longrightarrow> handsOverUniqueNames env w c \<Longrightarrow>
   uniqueModelNames pns (state (exec env c w))"
proof (induction env w c rule: handsOverUniqueNames.induct)
  case (1 env w p ms)
  then show ?case by (simp add: uniq_set_models)
next
  case (2 env w p names)
  then show ?case by (simp add: setDefaultModels_def Let_def uniq_set_models)
qed (simp_all add: uniq_setSetting_other uniq_setSelection uniq_setFlag uniq_addModel
       uniq_deleteModel uniq_toggleModelHidden)

section \<open>Unique model names (C5)\<close>

text \<open>
  Claim C5, as amended. If model names are unique within the list of every provider,
  they still are after any sequence of calls of the mutating methods in which every
  \<^verbatim>\<open>setSettingOfProvider(p, 'models', list)\<close> hands over a list with unique names and
  every \<^verbatim>\<open>setDefaultModels\<close> rebuilds a list with unique names; \<^verbatim>\<open>addModel\<close>,
  \<^verbatim>\<open>deleteModel\<close>, \<^verbatim>\<open>toggleModelHidden\<close>, \<^verbatim>\<open>setModelSelectionOfFeature\<close>,
  \<^verbatim>\<open>setFeatureFlag\<close> and \<^verbatim>\<open>setSettingOfProvider\<close> with another setting keep the
  names unique without any condition.
\<close>

theorem unique_names_kept:
  "uniqueModelNames pns (state w) \<Longrightarrow> runHandsOverUniqueNames env calls w \<Longrightarrow>
   uniqueModelNames pns (state (run env calls w))"
proof (induction calls arbitrary: w)
  case Nil
  then show ?case by simp
next
  case (Cons c cs)
  from Cons.prems have "uniqueModelNames pns (state (exec env c w))"
    by (simp add: uniq_exec)
  moreover from Cons.prems have "runHandsOverUniqueNames env cs (exec env c w)" by simp
  ultimately show ?case by (simp add: Cons.IH)
qed

section \<open>Before the bridge is initialised (C9)\<close>



section \<open>The properties at concrete inputs\<close>

lemmas ex_inputs =
  exampleEnv_def failingEnv_def freshWorld_def selectedWorld_def exampleSettings_def
  gpt4o_def o1_def llama3_def llamaSelection_def defaultState_def

theorem modelOptions_flattened_witness:
  "''openai'' \<in> set (providerNames exampleEnv) \<and>
   p_enabled (settingsOfProvider (state freshWorld) ''openai'') \<and>
   computeModelOptions (providerNames exampleEnv) exampleSettings =
     [mkOption ''openai'' ''gpt-4o'', mkOption ''ollama'' ''llama3''] \<and>
   modelOptions (state (snd (setSettingOfProvider exampleEnv ''openai'' (Enabled False) freshWorld))) =
     [mkOption ''ollama'' ''llama3''] \<and>
   modelOptions (state (snd (setSettingOfProvider exampleEnv ''openai'' (Enabled True)
       (snd (setSettingOfProvider exampleEnv ''openai'' (Enabled False) freshWorld))))) =
     [mkOption ''openai'' ''gpt-4o'', mkOption ''ollama'' ''llama3'']"
  using modelOptions_flattened [where pns = "providerNames exampleEnv" and sop = exampleSettings
      and env = exampleEnv and p = "''openai''" and w = freshWorld]
  by (simp add: set_state sync_settings sync_options computeModelOptions_flattened
        flattenedOptions_def Let_def ex_inputs)

theorem setSettingOfProvider_frame_witness:
  "readSetting (settingsOfProvider (state (snd (setSettingOfProvider exampleEnv ''openai''
       (Custom ''apiKey'' ''sk-1'') freshWorld))) ''openai'') (N_custom ''apiKey'') =
     Some (Custom ''apiKey'' ''sk-1'') \<and>
   N_models \<noteq> settingName (Custom ''apiKey'' ''sk-1'') \<and>
   readSetting (settingsOfProvider (state (snd (setSettingOfProvider exampleEnv ''openai''
       (Custom ''apiKey'' ''sk-1'') freshWorld))) ''openai'') N_models = Some (Models [gpt4o, o1]) \<and>
   ''ollama'' \<noteq> ''openai'' \<and>
   models (settingsOfProvider (state (snd (setSettingOfProvider exampleEnv ''openai''
       (Custom ''apiKey'' ''sk-1'') freshWorld))) ''ollama'') = [llama3]"
proof -
  let ?sop' = "settingsOfProvider (state (snd (setSettingOfProvider exampleEnv ''openai''
       (Custom ''apiKey'' ''sk-1'') freshWorld)))"
  note frame = setSettingOfProvider_frame [where env = exampleEnv and p = "''openai''"
      and newVal = "Custom ''apiKey'' ''sk-1''" and w = freshWorld, unfolded Let_def]
  note written = frame [THEN conjunct1]
  note settings = frame [THEN conjunct2, THEN conjunct1, rule_format]
  note providers = frame [THEN conjunct2, THEN conjunct2, rule_format]
  have old: "settingsOfProvider (state freshWorld) = exampleSettings"
    by (simp add: freshWorld_def defaultState_def exampleEnv_def)
  have diff: "N_models \<noteq> settingName (Custom ''apiKey'' ''sk-1'')"
    by simp
  have kept: "readSetting (?sop' ''openai'') N_models = Some (Models [gpt4o, o1])"
    unfolding settings [OF diff] old by (simp add: exampleSettings_def)
  have other: "models (?sop' ''ollama'') = [llama3]"
    unfolding providers [of "''ollama''", simplified] old by (simp add: exampleSettings_def)
  show ?thesis using written kept other by simp
qed



theorem deleteModel_removes_one_witness:
  "''nope'' \<notin> set (map modelName (models (settingsOfProvider (state freshWorld) ''openai''))) \<and>
   deleteModel exampleEnv ''openai'' ''nope'' freshWorld = (False, freshWorld) \<and>
   ''o1'' \<in> set (map modelName (models (settingsOfProvider (state freshWorld) ''openai''))) \<and>
   fst (deleteModel exampleEnv ''openai'' ''o1'' freshWorld) = True \<and>
   models (settingsOfProvider (state (snd (deleteModel exampleEnv ''openai'' ''o1'' freshWorld))) ''openai'')
     = [gpt4o]"
proof -
  let ?after = "models (settingsOfProvider
      (state (snd (deleteModel exampleEnv ''openai'' ''o1'' freshWorld))) ''openai'')"
  have ms: "models (settingsOfProvider (state freshWorld) ''openai'') = [gpt4o, o1]"
    by (simp add: freshWorld_def defaultState_def exampleEnv_def exampleSettings_def)
  have names: "modelName gpt4o = ''gpt-4o''" "modelName o1 = ''o1''"
    by (simp_all add: gpt4o_def o1_def)
  note absent = deleteModel_removes_one [where env = exampleEnv and p = "''openai''"
      and name = "''nope''" and w = freshWorld, unfolded Let_def, THEN conjunct1, rule_format]
  note present = deleteModel_removes_one [where env = exampleEnv and p = "''openai''"
      and name = "''o1''" and w = freshWorld, unfolded Let_def, THEN conjunct2, rule_format]
  have a: "''nope'' \<notin> set (map modelName (models (settingsOfProvider (state freshWorld) ''openai'')))"
    by (simp add: ms names)
  have b: "deleteModel exampleEnv ''openai'' ''nope'' freshWorld = (False, freshWorld)"
    using absent [OF a] by (simp add: prod_eq_iff)
  have c: "''o1'' \<in> set (map modelName (models (settingsOfProvider (state freshWorld) ''openai'')))"
    by (simp add: ms names)
  have d: "fst (deleteModel exampleEnv ''openai'' ''o1'' freshWorld) = True"
    using present [OF c] by (rule conjunct1)
  obtain pre m post where sp: "[gpt4o, o1] = pre @ m # post" "modelName m = ''o1''"
      "''o1'' \<notin> set (map modelName pre)"
    and res: "?after = pre @ post"
    using present [OF c, THEN conjunct2] unfolding ms by blast
  have "pre = [gpt4o] \<and> post = []"
  proof (cases pre)
    case Nil
    with sp(1,2) show ?thesis by (simp add: names)
  next
    case (Cons x rest)
    with sp show ?thesis by (cases rest) (simp_all add: names)
  qed
  with res have e: "?after = [gpt4o]" by simp
  show ?thesis using a b c d e by simp
qed

theorem addModel_idempotent_witness:
  "''gpt-x'' \<notin> set (map modelName (models (settingsOfProvider (state freshWorld) ''openai''))) \<and>
   models (settingsOfProvider (state (addModel exampleEnv ''openai'' ''gpt-x'' freshWorld)) ''openai'') =
     [gpt4o, o1, \<lparr>modelName = ''gpt-x'', isDefault = False, isHidden = False\<rparr>] \<and>
   models (settingsOfProvider (state (addModel exampleEnv ''openai'' ''gpt-x''
       (addModel exampleEnv ''openai'' ''gpt-x'' freshWorld))) ''openai'') =
     [gpt4o, o1, \<lparr>modelName = ''gpt-x'', isDefault = False, isHidden = False\<rparr>] \<and>
   ''o1'' \<in> set (map modelName (models (settingsOfProvider (state freshWorld) ''openai''))) \<and>
   addModel exampleEnv ''openai'' ''o1'' freshWorld = freshWorld"
proof -
  have ms: "models (settingsOfProvider (state freshWorld) ''openai'') = [gpt4o, o1]"
    by (simp add: freshWorld_def defaultState_def exampleEnv_def exampleSettings_def)
  have names: "modelName gpt4o = ''gpt-4o''" "modelName o1 = ''o1''"
    by (simp_all add: gpt4o_def o1_def)
  note fresh = addModel_idempotent [where env = exampleEnv and p = "''openai''"
      and name = "''gpt-x''" and w = freshWorld, unfolded Let_def]
  note known = addModel_idempotent [where env = exampleEnv and p = "''openai''"
      and name = "''o1''" and w = freshWorld, unfolded Let_def]
  have a: "''gpt-x'' \<notin> set (map modelName (models (settingsOfProvider (state freshWorld) ''openai'')))"
    by (simp add: ms names)
  have b: "models (settingsOfProvider (state (addModel exampleEnv ''openai'' ''gpt-x'' freshWorld)) ''openai'') =
     [gpt4o, o1, \<lparr>modelName = ''gpt-x'', isDefault = False, isHidden = False\<rparr>]"
    using fresh [THEN conjunct2, THEN conjunct2, THEN conjunct1, rule_format, OF a]
    by (simp add: ms)
  have c: "models (settingsOfProvider (state (addModel exampleEnv ''openai'' ''gpt-x''
       (addModel exampleEnv ''openai'' ''gpt-x'' freshWorld))) ''openai'') =
     [gpt4o, o1, \<lparr>modelName = ''gpt-x'', isDefault = False, isHidden = False\<rparr>]"
    unfolding fresh [THEN conjunct2, THEN conjunct1] by (rule b)
  have d: "''o1'' \<in> set (map modelName (models (settingsOfProvider (state freshWorld) ''openai'')))"
    by (simp add: ms names)
  have e: "addModel exampleEnv ''openai'' ''o1'' freshWorld = freshWorld"
    using known [THEN conjunct2, THEN conjunct2, THEN conjunct2, rule_format, OF d] .
  show ?thesis using a b c d e by simp
qed

theorem readState_first_run_witness:
  "storage freshWorld STORAGE_KEY = None \<and>
   readState exampleEnv freshWorld = Inr (defaultState exampleEnv) \<and>
   models (settingsOfProvider (defaultState exampleEnv) ''ollama'') = [llama3] \<and>
   modelSelectionOfFeature (defaultState exampleEnv) CtrlK = None \<and>
   fired (snd (construct exampleEnv Map.empty)) = [EvAll]"
proof -
  have none: "storage freshWorld STORAGE_KEY = None"
    by (simp add: freshWorld_def)
  note first = readState_first_run [OF none, where env = exampleEnv and stg = Map.empty]
  have a: "readState exampleEnv freshWorld = Inr (defaultState exampleEnv)"
    using first by (rule conjunct1)
  have b: "settingsOfProvider (defaultState exampleEnv) = defaultSettingsOfProvider exampleEnv"
    using first by blast
  have c: "modelSelectionOfFeature (defaultState exampleEnv) CtrlK = None"
    using first by blast
  have "storage freshWorld = Map.empty" by (simp add: freshWorld_def)
  with first have d: "construct exampleEnv Map.empty =
      (Inr (), \<lparr>state = defaultState exampleEnv, storage = Map.empty, fired = [EvAll]\<rparr>)"
    by blast
  have e: "models (settingsOfProvider (defaultState exampleEnv) ''ollama'') = [llama3]"
    unfolding b by (simp add: exampleEnv_def exampleSettings_def)
  have f: "fired (snd (construct exampleEnv Map.empty)) = [EvAll]"
    unfolding d by simp
  show ?thesis
    using none a c e f by simp
qed

lemma fresh_settings: "settingsOfProvider (state freshWorld) = exampleSettings"
  by (simp add: freshWorld_def defaultState_def exampleEnv_def)

lemma fresh_selection: "modelSelectionOfFeature (state freshWorld) f = None"
  by (simp add: freshWorld_def defaultState_def)

lemma selected_settings: "settingsOfProvider (state selectedWorld) = exampleSettings"
  by (simp add: selectedWorld_def fresh_settings)

lemma example_names:
  "providerNames exampleEnv = [''openai'', ''ollama'']"
  "featureNames exampleEnv = [CtrlL, CtrlK, Autocomplete]"
  "providerNames failingEnv = [''openai'', ''ollama'']"
  "featureNames failingEnv = [CtrlL, CtrlK, Autocomplete]"
  by (simp_all add: exampleEnv_def failingEnv_def)

lemma example_codec:
  "encrypt exampleEnv (JSON_stringify exampleEnv st) = Some ''enc:doc''"
  "encrypt failingEnv (JSON_stringify failingEnv st) = None"
  by (simp_all add: exampleEnv_def failingEnv_def)

lemma ollama_disabled_options:
  "settingsOfProvider (state w) = exampleSettings \<Longrightarrow>
   providerNames env = [''openai'', ''ollama''] \<Longrightarrow>
   modelOptions (state (snd (setSettingOfProvider env ''ollama'' (Enabled False) w))) =
     [mkOption ''openai'' ''gpt-4o'']"
  by (simp add: set_state sync_options computeModelOptions_flattened flattenedOptions_def
        exampleSettings_def gpt4o_def o1_def llama3_def)

theorem null_selection_replaced_witness:
  "(settingName (Enabled False) = N_models \<or> settingName (Enabled False) = N_enabled) \<and>
   Autocomplete \<in> set (featureNames exampleEnv) \<and>
   modelSelectionOfFeature (state freshWorld) Autocomplete = None \<and>
   modelOptions (state (snd (setSettingOfProvider exampleEnv ''ollama'' (Enabled False) freshWorld))) =
     [mkOption ''openai'' ''gpt-4o''] \<and>
   modelSelectionOfFeature
     (state (snd (setSettingOfProvider exampleEnv ''ollama'' (Enabled False) freshWorld))) Autocomplete =
     Some \<lparr>providerName = ''openai'', selModelName = ''gpt-4o''\<rparr>"
proof -
  have h1: "settingName (Enabled False) = N_models \<or> settingName (Enabled False) = N_enabled"
    by simp
  have h2: "Autocomplete \<in> set (featureNames exampleEnv)"
    by (simp add: example_names)
  have h3: "modelSelectionOfFeature (state freshWorld) Autocomplete = None"
    by (rule fresh_selection)
  have h4: "modelOptions (state (snd (setSettingOfProvider exampleEnv ''ollama'' (Enabled False) freshWorld))) =
     [mkOption ''openai'' ''gpt-4o'']"
    by (rule ollama_disabled_options [OF fresh_settings example_names(1)])
  have "modelSelectionOfFeature
     (state (snd (setSettingOfProvider exampleEnv ''ollama'' (Enabled False) freshWorld))) Autocomplete =
     Some (optValue (mkOption ''openai'' ''gpt-4o''))"
    by (rule null_selection_replaced [OF h1 h2 h3 h4])
  then show ?thesis using h1 h2 h3 h4 by (simp add: mkOption_def)
qed

theorem invalid_selection_reassigned_witness:
  "(settingName (Enabled False) = N_models \<or> settingName (Enabled False) = N_enabled) \<and>
   CtrlK \<in> set (featureNames exampleEnv) \<and>
   modelSelectionOfFeature (state selectedWorld) CtrlK = Some llamaSelection \<and>
   llamaSelection \<notin> set (map optValue (modelOptions
     (state (snd (setSettingOfProvider exampleEnv ''ollama'' (Enabled False) selectedWorld))))) \<and>
   modelSelectionOfFeature
     (state (snd (setSettingOfProvider exampleEnv ''ollama'' (Enabled False) selectedWorld))) CtrlK =
     Some \<lparr>providerName = ''openai'', selModelName = ''gpt-4o''\<rparr> \<and>
   fst (setSettingOfProvider exampleEnv ''ollama'' (Enabled False) selectedWorld) = Inr () \<and>
   storage (snd (setSettingOfProvider exampleEnv ''ollama'' (Enabled False) selectedWorld)) STORAGE_KEY =
     Some ''enc:doc'' \<and>
   fired (snd (setSettingOfProvider exampleEnv ''ollama'' (Enabled False) selectedWorld)) =
     [EvSettingsOfProvider] \<and>
   fst (setSettingOfProvider failingEnv ''ollama'' (Enabled False) selectedWorld) = Inl EncryptRejected \<and>
   fired (snd (setSettingOfProvider failingEnv ''ollama'' (Enabled False) selectedWorld)) = []"
proof -
  let ?r = "setSettingOfProvider exampleEnv ''ollama'' (Enabled False) selectedWorld"
  let ?q = "setSettingOfProvider failingEnv ''ollama'' (Enabled False) selectedWorld"
  have h1: "settingName (Enabled False) = N_models \<or> settingName (Enabled False) = N_enabled"
    by simp
  note stored = invalid_selection_reassigned [OF h1, where env = exampleEnv and p = "''ollama''"
      and w = selectedWorld, unfolded Let_def]
  note rejected = invalid_selection_reassigned [OF h1, where env = failingEnv and p = "''ollama''"
      and w = selectedWorld, unfolded Let_def]
  have h2: "CtrlK \<in> set (featureNames exampleEnv)"
    by (simp add: example_names)
  have h3: "modelSelectionOfFeature (state selectedWorld) CtrlK = Some llamaSelection"
    by (simp add: selectedWorld_def)
  have opts: "modelOptions (state (snd ?r)) = [mkOption ''openai'' ''gpt-4o'']"
    by (rule ollama_disabled_options [OF selected_settings example_names(1)])
  have h4: "llamaSelection \<notin> set (map optValue (modelOptions (state (snd ?r))))"
    unfolding opts by (simp add: mkOption_def llamaSelection_def)
  have "modelSelectionOfFeature (state (snd ?r)) CtrlK =
          (case modelOptions (state (snd ?r)) of [] \<Rightarrow> None | m # rest \<Rightarrow> Some (optValue m))"
    using stored [THEN conjunct2, THEN conjunct1, rule_format, OF h2] h3 h4 by blast
  then have a: "modelSelectionOfFeature (state (snd ?r)) CtrlK =
          Some \<lparr>providerName = ''openai'', selModelName = ''gpt-4o''\<rparr>"
    unfolding opts by (simp add: mkOption_def)
  have b: "fst ?r = Inr () \<and> storage (snd ?r) STORAGE_KEY = Some ''enc:doc'' \<and>
           fired (snd ?r) = fired selectedWorld @ [EvSettingsOfProvider]"
    by (rule stored [THEN conjunct2, THEN conjunct2, THEN conjunct1, rule_format,
          OF example_codec(1)])
  have c: "fst ?q = Inl EncryptRejected \<and> fired (snd ?q) = fired selectedWorld"
    by (rule rejected [THEN conjunct2, THEN conjunct2, THEN conjunct2, THEN conjunct1,
          rule_format, OF example_codec(2)])
  have d: "fired selectedWorld = []"
    by (simp add: selectedWorld_def freshWorld_def)
  show ?thesis using h1 h2 h3 h4 a b c d by simp
qed


theorem mutation_before_persist_witness:
  "encrypt failingEnv (JSON_stringify failingEnv
      (state (setSettingOfProvider_sync failingEnv ''openai'' (Enabled False) freshWorld))) = None \<and>
   fst (setSettingOfProvider failingEnv ''openai'' (Enabled False) freshWorld) = Inl EncryptRejected \<and>
   p_enabled (settingsOfProvider
      (state (snd (setSettingOfProvider failingEnv ''openai'' (Enabled False) freshWorld))) ''openai'') = False \<and>
   fired (snd (setSettingOfProvider failingEnv ''openai'' (Enabled False) freshWorld)) = [] \<and>
   storage (snd (setSettingOfProvider failingEnv ''openai'' (Enabled False) freshWorld)) STORAGE_KEY = None \<and>
   fst (setModelSelectionOfFeature failingEnv CtrlK (Some llamaSelection) False freshWorld) =
     Inl EncryptRejected \<and>
   modelSelectionOfFeature
     (state (snd (setModelSelectionOfFeature failingEnv CtrlK (Some llamaSelection) False freshWorld))) CtrlK =
     Some llamaSelection \<and>
   fired (snd (setModelSelectionOfFeature failingEnv CtrlK (Some llamaSelection) False freshWorld)) = [] \<and>
   fst (setFeatureFlag failingEnv ''flag'' True freshWorld) = Inl EncryptRejected \<and>
   featureFlagSettings (state (snd (setFeatureFlag failingEnv ''flag'' True freshWorld))) ''flag'' = True \<and>
   fired (snd (setFeatureFlag failingEnv ''flag'' True freshWorld)) = [] \<and>
   encrypt exampleEnv (JSON_stringify exampleEnv
      (state (freshWorld\<lparr>state := (state freshWorld)\<lparr>featureFlagSettings :=
         (featureFlagSettings (state freshWorld))(''flag'' := True)\<rparr>\<rparr>))) = Some ''enc:doc'' \<and>
   fst (setFeatureFlag exampleEnv ''flag'' True freshWorld) = Inr () \<and>
   featureFlagSettings (state (snd (setFeatureFlag exampleEnv ''flag'' True freshWorld))) ''flag'' = True \<and>
   storage (snd (setFeatureFlag exampleEnv ''flag'' True freshWorld)) STORAGE_KEY = Some ''enc:doc'' \<and>
   fired (snd (setFeatureFlag exampleEnv ''flag'' True freshWorld)) = [EvFeatureFlagSettings]"
proof -
  note failing = mutation_before_persist [where env = failingEnv and p = "''openai''"
      and newVal = "Enabled False" and f = CtrlK and sel = "Some llamaSelection"
      and k = "''flag''" and b = True and w = freshWorld, unfolded Let_def]
  note working = mutation_before_persist [where env = exampleEnv and p = "''openai''"
      and newVal = "Enabled False" and f = CtrlK and sel = "Some llamaSelection"
      and k = "''flag''" and b = True and w = freshWorld, unfolded Let_def]
  note provider = failing [THEN conjunct1]
  note selection = failing [THEN conjunct2, THEN conjunct1]
  note flag = failing [THEN conjunct2, THEN conjunct2]
  note flag_ok = working [THEN conjunct2, THEN conjunct2]
  have fresh: "fired freshWorld = []" "storage freshWorld STORAGE_KEY = None"
    by (simp_all add: freshWorld_def)
  let ?m = "setSettingOfProvider_sync failingEnv ''openai'' (Enabled False) freshWorld"
  let ?r = "setSettingOfProvider failingEnv ''openai'' (Enabled False) freshWorld"
  have p1: "?r = (Inl EncryptRejected, ?m) \<and> fired ?m = fired freshWorld \<and>
            storage ?m = storage freshWorld"
    by (rule provider [THEN conjunct2, THEN conjunct2, THEN conjunct2, rule_format,
          OF example_codec(2)])
  have p2: "settingsOfProvider (state ?m) ''openai'' =
            writeSetting (settingsOfProvider (state freshWorld) ''openai'') (Enabled False)"
    by (rule provider [THEN conjunct1])
  have a: "fst ?r = Inl EncryptRejected" "fired (snd ?r) = []" "storage (snd ?r) STORAGE_KEY = None"
    using p1 fresh by simp_all
  have b: "p_enabled (settingsOfProvider (state (snd ?r)) ''openai'') = False"
    using p1 p2 by simp
  let ?s = "setModelSelectionOfFeature failingEnv CtrlK (Some llamaSelection) False freshWorld"
  have s1: "?s = (Inl EncryptRejected, freshWorld\<lparr>state := (state freshWorld)\<lparr>modelSelectionOfFeature :=
                 (modelSelectionOfFeature (state freshWorld))(CtrlK := Some llamaSelection)\<rparr>\<rparr>)"
    by (rule selection [THEN conjunct2, THEN conjunct2, rule_format, OF example_codec(2)])
  have c: "fst ?s = Inl EncryptRejected" "fired (snd ?s) = []"
    "modelSelectionOfFeature (state (snd ?s)) CtrlK = Some llamaSelection"
    unfolding s1 using fresh by simp_all
  let ?t = "setFeatureFlag failingEnv ''flag'' True freshWorld"
  have t1: "?t = (Inl EncryptRejected, freshWorld\<lparr>state := (state freshWorld)\<lparr>featureFlagSettings :=
                 (featureFlagSettings (state freshWorld))(''flag'' := True)\<rparr>\<rparr>)"
    by (rule flag [THEN conjunct2, THEN conjunct2, rule_format, OF example_codec(2)])
  have d: "fst ?t = Inl EncryptRejected" "fired (snd ?t) = []"
    "featureFlagSettings (state (snd ?t)) ''flag'' = True"
    unfolding t1 using fresh by simp_all
  let ?u = "setFeatureFlag exampleEnv ''flag'' True freshWorld"
  have u1: "?u = (Inr (), freshWorld\<lparr>state := (state freshWorld)\<lparr>featureFlagSettings :=
                 (featureFlagSettings (state freshWorld))(''flag'' := True)\<rparr>\<rparr>
               \<lparr>storage := (storage freshWorld)(STORAGE_KEY \<mapsto> ''enc:doc''),
                fired := fired freshWorld @ [EvFeatureFlagSettings]\<rparr>)"
    by (rule flag_ok [THEN conjunct2, THEN conjunct1, rule_format, OF example_codec(1)])
  have e: "fst ?u = Inr ()" "fired (snd ?u) = [EvFeatureFlagSettings]"
    "featureFlagSettings (state (snd ?u)) ''flag'' = True"
    "storage (snd ?u) STORAGE_KEY = Some ''enc:doc''"
    unfolding u1 using fresh by simp_all
  show ?thesis using a b c d e example_codec by simp
qed


lemma fresh_unique: "uniqueModelNames (providerNames exampleEnv) (state freshWorld)"
  by (simp add: uniqueModelNames_def example_names fresh_settings exampleSettings_def
        gpt4o_def o1_def llama3_def)

theorem unique_names_counterexample:
  "uniqueModelNames (providerNames exampleEnv) (state freshWorld) \<and>
   \<not> uniqueModelNames (providerNames exampleEnv)
       (state (snd (setSettingOfProvider exampleEnv ''openai'' (Models [gpt4o, gpt4o]) freshWorld)))"
  using fresh_unique by (simp add: uniqueModelNames_def example_names set_models)

theorem unique_names_kept_witness:
  "uniqueModelNames (providerNames exampleEnv) (state freshWorld) \<and>
   runHandsOverUniqueNames exampleEnv
     [AddModel ''openai'' ''gpt-x'', SetDefaultModels ''openai'' [''gpt-4o''],
      DeleteModel ''ollama'' ''llama3''] freshWorld \<and>
   uniqueModelNames (providerNames exampleEnv)
     (state (run exampleEnv
        [AddModel ''openai'' ''gpt-x'', SetDefaultModels ''openai'' [''gpt-4o''],
         DeleteModel ''ollama'' ''llama3''] freshWorld))"
proof -
  have added: "models (settingsOfProvider (state (addModel exampleEnv ''openai'' ''gpt-x'' freshWorld))
      ''openai'') = [gpt4o, o1, \<lparr>modelName = ''gpt-x'', isDefault = False, isHidden = False\<rparr>]"
    by (simp add: addModel_fresh set_models fresh_settings exampleSettings_def gpt4o_def o1_def)
  have rebuilt: "modelInfoOfDefaultNames exampleEnv [''gpt-4o''] ms =
      [\<lparr>modelName = ''gpt-4o'', isDefault = True, isHidden = False\<rparr>]" for ms
    by (simp add: exampleEnv_def)
  have h: "runHandsOverUniqueNames exampleEnv
     [AddModel ''openai'' ''gpt-x'', SetDefaultModels ''openai'' [''gpt-4o''],
      DeleteModel ''ollama'' ''llama3''] freshWorld"
    by (auto simp: added rebuilt gpt4o_def o1_def)
  show ?thesis
    using fresh_unique h unique_names_kept [OF fresh_unique h] by simp
qed


end
